theory Spec2Isabelle
  imports Main
begin

section \<open>JavaScript strings and values\<close>

text \<open>
  A JavaScript string is a sequence of UTF-16 code units. The message a page posts, the
  property names and the string values inside a parsed message are all such strings, and a
  \<open>\u\<close> escape of JSON can denote any code unit, so a string is modelled as the list of
  its code units. \<open>js\<close> turns a literal of the source into that list.
\<close>

type_synonym js_string = "nat list"

abbreviation ch :: "char \<Rightarrow> nat" where
  "ch \<equiv> of_char"

definition js :: "string \<Rightarrow> js_string" where
  "js s = map ch s"

text \<open>
  The values \<open>JSON.parse\<close> can return, and \<open>undefined\<close>, which reading an absent
  property gives. A number keeps the text of its literal: its numeric value is never
  inspected by the application.
\<close>

datatype js_value =
    Undefined
  | JNull
  | JBool bool
  | JNumber js_string
  | JString js_string
  | JArray "js_value list"
  | JObject "(js_string \<times> js_value) list"

datatype exn = SyntaxError | TypeError

section \<open>\<open>JSON.parse\<close>\<close>

text \<open>
  The built-in \<open>JSON.parse\<close>, following the JSON grammar (ECMA-404): a scanner, one code
  unit at a time, then a pushdown automaton over the tokens. Both are total; a text outside
  the grammar is a \<open>SyntaxError\<close>.
\<close>

datatype token =
    TLBrace | TRBrace | TLBracket | TRBracket | TColon | TComma
  | TAtom js_value

datatype num_state =
    NMinus | NZero | NInt | NDot | NFrac | NExp | NExpSign | NExpDigits

datatype lex_state =
    LIdle
  | LString js_string
  | LEscape js_string
  | LUnicode js_string "nat list"
  | LNumber num_state js_string
  | LWord js_string js_value

definition is_digit :: "nat \<Rightarrow> bool" where
  "is_digit c \<longleftrightarrow> ch CHR ''0'' \<le> c \<and> c \<le> ch CHR ''9''"

definition is_whitespace :: "nat \<Rightarrow> bool" where
  "is_whitespace c \<longleftrightarrow> c = 32 \<or> c = 9 \<or> c = 10 \<or> c = 13"

definition hex_value :: "nat \<Rightarrow> nat option" where
  "hex_value c =
     (if is_digit c then Some (c - ch CHR ''0'')
      else if ch CHR ''a'' \<le> c \<and> c \<le> ch CHR ''f'' then Some (c - ch CHR ''a'' + 10)
      else if ch CHR ''A'' \<le> c \<and> c \<le> ch CHR ''F'' then Some (c - ch CHR ''A'' + 10)
      else None)"

definition escape_char :: "nat \<Rightarrow> nat option" where
  "escape_char c =
     (if c = ch CHR 0x22 then Some (ch CHR 0x22)
      else if c = ch CHR 0x5C then Some (ch CHR 0x5C)
      else if c = ch CHR ''/'' then Some (ch CHR ''/'')
      else if c = ch CHR ''b'' then Some 8
      else if c = ch CHR ''f'' then Some 12
      else if c = ch CHR ''n'' then Some 10
      else if c = ch CHR ''r'' then Some 13
      else if c = ch CHR ''t'' then Some 9
      else None)"

definition is_exponent_mark :: "nat \<Rightarrow> bool" where
  "is_exponent_mark c \<longleftrightarrow> c = ch CHR ''e'' \<or> c = ch CHR ''E''"

fun num_step :: "num_state \<Rightarrow> nat \<Rightarrow> num_state option" where
  "num_step NMinus c =
     (if c = ch CHR ''0'' then Some NZero else if is_digit c then Some NInt else None)"
| "num_step NZero c =
     (if c = ch CHR ''.'' then Some NDot else if is_exponent_mark c then Some NExp else None)"
| "num_step NInt c =
     (if is_digit c then Some NInt else if c = ch CHR ''.'' then Some NDot
      else if is_exponent_mark c then Some NExp else None)"
| "num_step NDot c = (if is_digit c then Some NFrac else None)"
| "num_step NFrac c =
     (if is_digit c then Some NFrac else if is_exponent_mark c then Some NExp else None)"
| "num_step NExp c =
     (if c = ch CHR ''+'' \<or> c = ch CHR ''-'' then Some NExpSign
      else if is_digit c then Some NExpDigits else None)"
| "num_step NExpSign c = (if is_digit c then Some NExpDigits else None)"
| "num_step NExpDigits c = (if is_digit c then Some NExpDigits else None)"

fun num_final :: "num_state \<Rightarrow> bool" where
  "num_final NZero = True"
| "num_final NInt = True"
| "num_final NFrac = True"
| "num_final NExpDigits = True"
| "num_final _ = False"

text \<open>The scanner between two tokens, reading the first code unit of the next one.\<close>

definition lex_idle :: "nat \<Rightarrow> token list \<Rightarrow> (lex_state \<times> token list) option" where
  "lex_idle c ts =
     (if is_whitespace c then Some (LIdle, ts)
      else if c = ch CHR ''{'' then Some (LIdle, ts @ [TLBrace])
      else if c = ch CHR ''}'' then Some (LIdle, ts @ [TRBrace])
      else if c = ch CHR ''['' then Some (LIdle, ts @ [TLBracket])
      else if c = ch CHR '']'' then Some (LIdle, ts @ [TRBracket])
      else if c = ch CHR '':'' then Some (LIdle, ts @ [TColon])
      else if c = ch CHR '','' then Some (LIdle, ts @ [TComma])
      else if c = ch CHR 0x22 then Some (LString [], ts)
      else if c = ch CHR ''-'' then Some (LNumber NMinus [c], ts)
      else if c = ch CHR ''0'' then Some (LNumber NZero [c], ts)
      else if is_digit c then Some (LNumber NInt [c], ts)
      else if c = ch CHR ''t'' then Some (LWord (js ''rue'') (JBool True), ts)
      else if c = ch CHR ''f'' then Some (LWord (js ''alse'') (JBool False), ts)
      else if c = ch CHR ''n'' then Some (LWord (js ''ull'') JNull, ts)
      else None)"

definition unicode_unit :: "nat list \<Rightarrow> nat" where
  "unicode_unit hs = foldl (\<lambda>a h. 16 * a + h) 0 hs"

fun lex_char :: "lex_state \<times> token list \<Rightarrow> nat \<Rightarrow> (lex_state \<times> token list) option" where
  "lex_char (LIdle, ts) c = lex_idle c ts"
| "lex_char (LString s, ts) c =
     (if c = ch CHR 0x22 then Some (LIdle, ts @ [TAtom (JString s)])
      else if c = ch CHR 0x5C then Some (LEscape s, ts)
      else if c < 32 then None
      else Some (LString (s @ [c]), ts))"
| "lex_char (LEscape s, ts) c =
     (if c = ch CHR ''u'' then Some (LUnicode s [], ts)
      else (case escape_char c of
              None \<Rightarrow> None
            | Some d \<Rightarrow> Some (LString (s @ [d]), ts)))"
| "lex_char (LUnicode s hs, ts) c =
     (case hex_value c of
        None \<Rightarrow> None
      | Some h \<Rightarrow>
          if length hs = 3 then Some (LString (s @ [unicode_unit (hs @ [h])]), ts)
          else Some (LUnicode s (hs @ [h]), ts))"
| "lex_char (LNumber n lexeme, ts) c =
     (case num_step n c of
        Some n' \<Rightarrow> Some (LNumber n' (lexeme @ [c]), ts)
      | None \<Rightarrow>
          if num_final n then lex_idle c (ts @ [TAtom (JNumber lexeme)]) else None)"
| "lex_char (LWord rest v, ts) c =
     (case rest of
        [] \<Rightarrow> None
      | r # rs \<Rightarrow>
          if c \<noteq> r then None
          else if rs = [] then Some (LIdle, ts @ [TAtom v])
          else Some (LWord rs v, ts))"

fun lex_end :: "lex_state \<times> token list \<Rightarrow> token list option" where
  "lex_end (LIdle, ts) = Some ts"
| "lex_end (LNumber n lexeme, ts) =
     (if num_final n then Some (ts @ [TAtom (JNumber lexeme)]) else None)"
| "lex_end _ = None"

fun lex_all :: "lex_state \<times> token list \<Rightarrow> js_string \<Rightarrow> token list option" where
  "lex_all l [] = lex_end l"
| "lex_all l (c # cs) =
     (case lex_char l c of None \<Rightarrow> None | Some l' \<Rightarrow> lex_all l' cs)"

definition tokenize :: "js_string \<Rightarrow> token list option" where
  "tokenize text = lex_all (LIdle, []) text"

text \<open>
  The automaton over the tokens. The stack holds the arrays and objects that are open,
  each with the elements or members read so far (an object also with the key whose value is
  being read).
\<close>

datatype frame =
    InArray "js_value list"
  | InObject "(js_string \<times> js_value) list" js_string

datatype pstate =
    PValue
  | PArrayFirst
  | PObjectFirst
  | PKey "(js_string \<times> js_value) list"
  | PColon "(js_string \<times> js_value) list" js_string
  | PAfter js_value

fun parse_value_start :: "token \<Rightarrow> frame list \<Rightarrow> (pstate \<times> frame list) option" where
  "parse_value_start (TAtom v) stk = Some (PAfter v, stk)"
| "parse_value_start TLBracket stk = Some (PArrayFirst, stk)"
| "parse_value_start TLBrace stk = Some (PObjectFirst, stk)"
| "parse_value_start _ stk = None"

fun parse_token :: "pstate \<times> frame list \<Rightarrow> token \<Rightarrow> (pstate \<times> frame list) option" where
  "parse_token (PValue, stk) t = parse_value_start t stk"
| "parse_token (PArrayFirst, stk) t =
     (if t = TRBracket then Some (PAfter (JArray []), stk)
      else parse_value_start t (InArray [] # stk))"
| "parse_token (PObjectFirst, stk) t =
     (case t of
        TRBrace \<Rightarrow> Some (PAfter (JObject []), stk)
      | TAtom (JString k) \<Rightarrow> Some (PColon [] k, stk)
      | _ \<Rightarrow> None)"
| "parse_token (PKey ms, stk) t =
     (case t of TAtom (JString k) \<Rightarrow> Some (PColon ms k, stk) | _ \<Rightarrow> None)"
| "parse_token (PColon ms k, stk) t =
     (case t of TColon \<Rightarrow> Some (PValue, InObject ms k # stk) | _ \<Rightarrow> None)"
| "parse_token (PAfter v, []) t = None"
| "parse_token (PAfter v, InArray xs # stk) t =
     (case t of
        TComma \<Rightarrow> Some (PValue, InArray (xs @ [v]) # stk)
      | TRBracket \<Rightarrow> Some (PAfter (JArray (xs @ [v])), stk)
      | _ \<Rightarrow> None)"
| "parse_token (PAfter v, InObject ms k # stk) t =
     (case t of
        TComma \<Rightarrow> Some (PKey (ms @ [(k, v)]), stk)
      | TRBrace \<Rightarrow> Some (PAfter (JObject (ms @ [(k, v)])), stk)
      | _ \<Rightarrow> None)"

fun parse_end :: "pstate \<times> frame list \<Rightarrow> js_value option" where
  "parse_end (PAfter v, []) = Some v"
| "parse_end _ = None"

fun parse_all :: "pstate \<times> frame list \<Rightarrow> token list \<Rightarrow> js_value option" where
  "parse_all p [] = parse_end p"
| "parse_all p (t # ts) =
     (case parse_token p t of None \<Rightarrow> None | Some p' \<Rightarrow> parse_all p' ts)"

definition JSON_parse :: "js_string \<Rightarrow> exn + js_value" where
  "JSON_parse text =
     (case tokenize text of
        None \<Rightarrow> Inl SyntaxError
      | Some ts \<Rightarrow>
          (case parse_all (PValue, []) ts of
             None \<Rightarrow> Inl SyntaxError
           | Some v \<Rightarrow> Inr v))"

section \<open>The host application\<close>

text \<open>
  Reading a property that is not a built-in member (\<open>data.action\<close>, \<open>data.button\<close>).
  On \<open>null\<close> and \<open>undefined\<close> it throws a \<open>TypeError\<close>; on an object it gives the
  member of that name (the last one, where the text repeated a key) or \<open>undefined\<close>; on
  a number, a boolean, a string or an array it gives \<open>undefined\<close>.
\<close>

fun get_property :: "js_value \<Rightarrow> js_string \<Rightarrow> exn + js_value" where
  "get_property Undefined k = Inl TypeError"
| "get_property JNull k = Inl TypeError"
| "get_property (JObject ms) k =
     Inr (case map_of (rev ms) k of None \<Rightarrow> Undefined | Some v \<Rightarrow> v)"
| "get_property v k = Inr Undefined"

datatype log_entry = Log "js_value list" | Warn "js_value list"

text \<open>
  The promise of \<open>Camera.requestCameraPermissionsAsync()\<close> that the effect awaits: the
  effect has an empty dependency list, so it runs once, after the first render, and a
  promise settles at most once.
\<close>

datatype request = Pending | Settled

datatype PermissionStatus = GRANTED | DENIED | UNDETERMINED

datatype 'a settlement = Fulfilled 'a | Rejected

text \<open>
  The state of the component \<open>App\<close>: its two \<open>useState\<close> cells, the console it writes
  to, and the permission request in flight.
\<close>

record host =
  hasPermission :: "bool option"
  showCamera :: bool
  console :: "log_entry list"
  permissionRequest :: request

definition initial :: host where
  "initial = \<lparr>hasPermission = None, showCamera = False, console = [],
              permissionRequest = Pending\<rparr>"

definition console_log :: "js_value list \<Rightarrow> host \<Rightarrow> host" where
  "console_log args st = st\<lparr>console := console st @ [Log args]\<rparr>"

definition console_warn :: "js_value list \<Rightarrow> host \<Rightarrow> host" where
  "console_warn args st = st\<lparr>console := console st @ [Warn args]\<rparr>"

definition setHasPermission :: "bool \<Rightarrow> host \<Rightarrow> host" where
  "setHasPermission b st = st\<lparr>hasPermission := Some b\<rparr>"

definition setShowCamera :: "bool \<Rightarrow> host \<Rightarrow> host" where
  "setShowCamera b st = st\<lparr>showCamera := b\<rparr>"

text \<open>
  The body of the effect after the \<open>await\<close>. When the promise is fulfilled the status is
  compared with \<open>'granted'\<close> and stored; when it is rejected the \<open>await\<close> throws inside
  the async function, nothing catches it, and \<open>setHasPermission\<close> is not reached.
\<close>

definition permissionEffect :: "PermissionStatus settlement \<Rightarrow> host \<Rightarrow> host" where
  "permissionEffect outcome st =
     (case outcome of
        Fulfilled status \<Rightarrow> setHasPermission (status = GRANTED) st
      | Rejected \<Rightarrow> st)"

text \<open>
  The \<open>try\<close> block of \<open>handleWebViewMessage\<close>. \<open>JSON.parse(message)\<close> and the first
  read of \<open>data.action\<close> are the two expressions that can throw, and both come before any
  effect of the block.
\<close>

definition try_block :: "js_string \<Rightarrow> host \<Rightarrow> exn + host" where
  "try_block message st =
     (case JSON_parse message of
        Inl e \<Rightarrow> Inl e
      | Inr data \<Rightarrow>
          (case get_property data (js ''action'') of
             Inl e \<Rightarrow> Inl e
           | Inr action \<Rightarrow>
               if action = JString (js ''SHOW_CAMERA'') then
                 Inr (setShowCamera True
                        (console_log [JString (js ''Show camera requested'')] st))
               else if action = JString (js ''HIDE_CAMERA'') then
                 Inr (setShowCamera False
                        (console_log [JString (js ''Hide camera requested'')] st))
               else if action = JString (js ''BUTTON_CLICKED'') then
                 (case get_property data (js ''button'') of
                    Inl e \<Rightarrow> Inl e
                  | Inr button \<Rightarrow>
                      Inr (console_log [JString (js ''Button clicked:''), button] st))
               else Inr st))"

definition handleWebViewMessage :: "js_string \<Rightarrow> host \<Rightarrow> exn + host" where
  "handleWebViewMessage message st =
     (let st1 = console_log [JString (js ''Message from WebView:''), JString message] st
      in case try_block message st1 of
           Inr st2 \<Rightarrow> Inr st2
         | Inl e \<Rightarrow>
             Inr (console_log [JString (js ''Non-JSON message:''), JString message] st1))"

text \<open>
  The element tree \<open>App\<close> returns, by the value of \<open>hasPermission\<close>. Of the props,
  the style key of a \<open>View\<close> and the uri of the \<open>WebView\<close> are kept. A string written
  between the tags of an element is a child of its own, \<open>TextString\<close>. \<open>Text\<close> is
  React Native's component for strings; \<open>App\<close> does not use it.
\<close>

datatype element =
    SafeAreaProvider "element list"
  | SafeAreaView "element list"
  | View string "element list"
  | Text "element list"
  | TextString string
  | WebView string
  | Camera

definition App :: "host \<Rightarrow> element" where
  "App st =
     (if hasPermission st = None then
        SafeAreaProvider [SafeAreaView [View ''centered'' [View ''loader'' []]]]
      else if hasPermission st = Some False then
        SafeAreaProvider
          [SafeAreaView
             [View ''centered''
                [View ''errorBox''
                   [View ''errorIcon'' [View ''errorIconInner'' []],
                    View ''errorText'' [TextString ''Camera permission denied''],
                    View ''errorSubtext'' [TextString ''Please enable it in settings'']]]]]
      else
        SafeAreaProvider
          [SafeAreaView
             (WebView ''https://pushupchallange.netlify.app/''
                # (if showCamera st then [View ''cameraOverlay'' [Camera]] else []))])"

text \<open>
  React Native draws a tree only when every string in it is inside a \<open>Text\<close>; for a
  string anywhere else its renderer throws (``Text strings must be rendered within a
  \<open><Text>\<close> component''), and with no error boundary around \<open>App\<close> nothing is drawn.
  \<open>bare_strings\<close> collects the strings of a tree that are not inside a \<open>Text\<close>.
\<close>

fun bare_strings :: "element \<Rightarrow> string list" where
  "bare_strings (SafeAreaProvider children) = concat (map bare_strings children)"
| "bare_strings (SafeAreaView children) = concat (map bare_strings children)"
| "bare_strings (View style children) = concat (map bare_strings children)"
| "bare_strings (Text children) = []"
| "bare_strings (TextString s) = [s]"
| "bare_strings (WebView uri) = []"
| "bare_strings Camera = []"

datatype render_error = TextStringOutsideText

definition render :: "element \<Rightarrow> render_error + element" where
  "render v = (if bare_strings v = [] then Inr v else Inl TextStringOutsideText)"

fun webview_mounted :: "element \<Rightarrow> bool" where
  "webview_mounted (WebView uri) = True"
| "webview_mounted (SafeAreaProvider children) = list_ex webview_mounted children"
| "webview_mounted (SafeAreaView children) = list_ex webview_mounted children"
| "webview_mounted (View style children) = list_ex webview_mounted children"
| "webview_mounted (Text children) = list_ex webview_mounted children"
| "webview_mounted (TextString s) = False"
| "webview_mounted Camera = False"

text \<open>
  What can happen to the component: the permission promise settles, or the mounted
  \<open>WebView\<close> calls one of the callbacks it was given as a prop. Each callback other
  than \<open>onMessage\<close> only writes to the console (\<open>onShouldStartLoadWithRequest\<close> also
  answers \<open>true\<close>, which is no part of the state).
\<close>

datatype event =
    PermissionSettled "PermissionStatus settlement"
  | OnMessage js_string
  | OnError js_value
  | OnHttpError js_value
  | OnLoadStart
  | OnLoadEnd
  | OnShouldStartLoadWithRequest js_string

fun enabled :: "event \<Rightarrow> host \<Rightarrow> bool" where
  "enabled (PermissionSettled outcome) st = (permissionRequest st = Pending)"
| "enabled e st = webview_mounted (App st)"

fun step :: "event \<Rightarrow> host \<Rightarrow> exn + host" where
  "step (PermissionSettled outcome) st =
     Inr ((permissionEffect outcome st)\<lparr>permissionRequest := Settled\<rparr>)"
| "step (OnMessage message) st = handleWebViewMessage message st"
| "step (OnError nativeEvent) st =
     Inr (console_warn [JString (js ''WebView error:''), nativeEvent] st)"
| "step (OnHttpError statusCode) st =
     Inr (console_warn [JString (js ''HTTP error:''), statusCode] st)"
| "step OnLoadStart st = Inr (console_log [JString (js ''WebView load start'')] st)"
| "step OnLoadEnd st = Inr (console_log [JString (js ''WebView load end'')] st)"
| "step (OnShouldStartLoadWithRequest url) st =
     Inr (console_log [JString (js ''Navigation to:''), JString url] st)"

text \<open>
  A session: \<open>run\<close> is \<open>None\<close> when an event of the list cannot occur in the state
  reached, \<open>Some (Inl e)\<close> when a callback throws, and the final state otherwise.
  \<open>states\<close> lists the states the session goes through.
\<close>

fun run :: "event list \<Rightarrow> host \<Rightarrow> (exn + host) option" where
  "run [] st = Some (Inr st)"
| "run (e # es) st =
     (if enabled e st then
        (case step e st of Inl x \<Rightarrow> Some (Inl x) | Inr st' \<Rightarrow> run es st')
      else None)"

fun states :: "event list \<Rightarrow> host \<Rightarrow> host list" where
  "states [] st = [st]"
| "states (e # es) st =
     st # (if enabled e st then
             (case step e st of Inl x \<Rightarrow> [] | Inr st' \<Rightarrow> states es st')
           else [])"

fun changes :: "'a list \<Rightarrow> nat" where
  "changes (x # y # xs) = (if x = y then 0 else 1) + changes (y # xs)"
| "changes _ = 0"

section \<open>The injected script\<close>

text \<open>
  The page as the injected script sees it: the messages handed to
  \<open>window.ReactNativeWebView.postMessage\<close>, in order, the output of the page's own
  \<open>console.log\<close>, and the rest of the page, which only the page's own functions touch.
\<close>

record 'p page =
  posted :: "js_string list"
  pageConsole :: "js_string list list"
  content :: 'p

definition postMessage :: "js_string \<Rightarrow> 'p page \<Rightarrow> 'p page" where
  "postMessage s pg = pg\<lparr>posted := posted pg @ [s]\<rparr>"

definition originalLog :: "js_string list \<Rightarrow> 'p page \<Rightarrow> 'p page" where
  "originalLog args pg = pg\<lparr>pageConsole := pageConsole pg @ [args]\<rparr>"

text \<open>\<open>Array.prototype.join\<close> on strings.\<close>

fun join :: "js_string \<Rightarrow> js_string list \<Rightarrow> js_string" where
  "join sep [] = []"
| "join sep [x] = x"
| "join sep (x # xs) = x @ sep @ join sep xs"

text \<open>
  \<open>JSON.stringify\<close> on an object literal whose property values are strings, as the
  script calls it. A string is quoted with the escapes of \<open>QuoteJSONString\<close> for the
  quotation mark, the backslash and the control characters; surrogates are outside what
  the script passes.
\<close>

definition hex_digit :: "nat \<Rightarrow> nat" where
  "hex_digit d = (if d < 10 then ch CHR ''0'' + d else ch CHR ''a'' + (d - 10))"

definition quote_unit :: "nat \<Rightarrow> js_string" where
  "quote_unit c =
     (if c = 8 then [ch CHR 0x5C, ch CHR ''b'']
      else if c = 9 then [ch CHR 0x5C, ch CHR ''t'']
      else if c = 10 then [ch CHR 0x5C, ch CHR ''n'']
      else if c = 12 then [ch CHR 0x5C, ch CHR ''f'']
      else if c = 13 then [ch CHR 0x5C, ch CHR ''r'']
      else if c = ch CHR 0x22 then [ch CHR 0x5C, ch CHR 0x22]
      else if c = ch CHR 0x5C then [ch CHR 0x5C, ch CHR 0x5C]
      else if c < 32 then
        ch CHR 0x5C # js ''u00'' @ [hex_digit (c div 16), hex_digit (c mod 16)]
      else [c])"

definition QuoteJSONString :: "js_string \<Rightarrow> js_string" where
  "QuoteJSONString s = ch CHR 0x22 # concat (map quote_unit s) @ [ch CHR 0x22]"

definition JSON_stringify :: "(js_string \<times> js_string) list \<Rightarrow> js_string" where
  "JSON_stringify props =
     js ''{''
     @ join (js '','')
         (map (\<lambda>(k, v). QuoteJSONString k @ js '':'' @ QuoteJSONString v) props)
     @ js ''}''"

text \<open>
  \<open>Number::toString\<close> on a screen index: for an integer of magnitude below \<open>10^21\<close>
  it is the decimal numeral, with a minus sign when negative.
\<close>

fun digits :: "nat \<Rightarrow> js_string" where
  "digits n =
     (if n < 10 then [ch CHR ''0'' + n]
      else digits (n div 10) @ [ch CHR ''0'' + n mod 10])"

declare digits.simps [simp del]

definition Number_toString :: "int \<Rightarrow> js_string" where
  "Number_toString n =
     (if n < 0 then ch CHR ''-'' # digits (nat (- n)) else digits (nat n))"

definition is_safe_integer :: "int \<Rightarrow> bool" where
  "is_safe_integer n \<longleftrightarrow> \<bar>n\<bar> < 2 ^ 53"

text \<open>
  The replacement the script installs for \<open>console.log\<close>: the arguments, as strings,
  joined with a blank and posted, then the original \<open>console.log\<close>.
\<close>

definition page_console_log :: "js_string list \<Rightarrow> 'p page \<Rightarrow> 'p page" where
  "page_console_log args pg =
     originalLog args
       (postMessage
          (JSON_stringify
             [(js ''type'', js ''CONSOLE_LOG''), (js ''message'', join (js '' '') args)])
          pg)"

text \<open>
  The wrapper the script installs as \<open>window.goToScreen\<close>. \<open>originalGoToScreen\<close> is
  the value found under that name before: \<open>Some f\<close> when it is a function (which may
  throw), \<open>None\<close> when \<open>typeof\<close> gives anything else.
\<close>

definition goToScreen ::
  "(int \<Rightarrow> 'p page \<Rightarrow> 'e + 'p page) option \<Rightarrow> int \<Rightarrow> 'p page \<Rightarrow> 'e + 'p page" where
  "goToScreen originalGoToScreen n pg =
     (let pg1 = page_console_log [js ''Going to screen:'', Number_toString n] pg;
          pg2 = postMessage
                  (JSON_stringify
                     [(js ''action'', js ''BUTTON_CLICKED''),
                      (js ''button'', js ''screen_'' @ Number_toString n)])
                  pg1;
          pg3 = (if n = 5 then
                   postMessage (JSON_stringify [(js ''action'', js ''SHOW_CAMERA'')]) pg2
                 else
                   postMessage (JSON_stringify [(js ''action'', js ''HIDE_CAMERA'')]) pg2)
      in case originalGoToScreen of
           Some f \<Rightarrow> f n pg3
         | None \<Rightarrow> Inr pg3)"

section \<open>Vocabulary of the properties\<close>

text \<open>
  The \<open>action\<close> field of a message, as the dispatcher reads it: none when the text is
  not JSON or when reading the field throws, \<open>Undefined\<close> when the parsed value has no
  such member.
\<close>

definition message_action :: "js_string \<Rightarrow> js_value option" where
  "message_action message =
     (case JSON_parse message of
        Inl e \<Rightarrow> None
      | Inr data \<Rightarrow>
          (case get_property data (js ''action'') of
             Inl e \<Rightarrow> None
           | Inr action \<Rightarrow> Some action))"

text \<open>
  A scanner state in which no token, finished or under way, carries \<open>undefined\<close>.
\<close>

fun lex_defined :: "lex_state \<times> token list \<Rightarrow> bool" where
  "lex_defined (LWord rest v, ts) \<longleftrightarrow> v \<noteq> Undefined \<and> TAtom Undefined \<notin> set ts"
| "lex_defined (l, ts) \<longleftrightarrow> TAtom Undefined \<notin> set ts"

text \<open>A code unit that \<open>QuoteJSONString\<close> copies and the scanner accepts inside a string.\<close>

definition plain_unit :: "nat \<Rightarrow> bool" where
  "plain_unit c \<longleftrightarrow> 32 \<le> c \<and> c \<noteq> ch CHR 0x22 \<and> c \<noteq> ch CHR 0x5C"

section \<open>The dispatcher, one message at a time\<close>

lemma js_inject [simp]: "js a = js b \<longleftrightarrow> a = b"
  by (simp add: js_def inj_map_eq_map inj_on_def)

lemma get_property_throws:
  "get_property v k = Inl e \<longleftrightarrow> (v = Undefined \<or> v = JNull) \<and> e = TypeError"
  by (cases v) auto

lemma get_property_total:
  "get_property v k = Inr a \<Longrightarrow> \<exists>b. get_property v k' = Inr b"
  by (cases v) auto

lemma try_block_showCamera:
  "try_block m st = Inr st' \<Longrightarrow>
   showCamera st' =
     (if message_action m = Some (JString (js ''SHOW_CAMERA'')) then True
      else if message_action m = Some (JString (js ''HIDE_CAMERA'')) then False
      else showCamera st)"
  by (auto simp: try_block_def message_action_def setShowCamera_def console_log_def
           split: sum.splits if_splits)

lemma try_block_frame:
  "try_block m st = Inr st' \<Longrightarrow>
   hasPermission st' = hasPermission st \<and> permissionRequest st' = permissionRequest st \<and>
   (\<exists>new. console st' = console st @ new)"
  by (auto simp: try_block_def setShowCamera_def console_log_def
           split: sum.splits if_splits)

text \<open>The block throws exactly when the parse or the first property read does.\<close>

lemma try_block_throws:
  "try_block m st = Inl e \<longleftrightarrow>
     JSON_parse m = Inl e \<or>
     (\<exists>data. JSON_parse m = Inr data \<and> get_property data (js ''action'') = Inl e)"
proof (cases "JSON_parse m")
  case (Inl x)
  then show ?thesis by (simp add: try_block_def)
next
  case parsed: (Inr data)
  show ?thesis
  proof (cases "get_property data (js ''action'')")
    case (Inl x)
    with parsed show ?thesis by (simp add: try_block_def)
  next
    case (Inr action)
    then obtain b where "get_property data (js ''button'') = Inr b"
      using get_property_total by blast
    with Inr parsed show ?thesis by (simp add: try_block_def)
  qed
qed

lemma try_block_fails: "try_block m st = Inl e \<Longrightarrow> message_action m = None"
  by (auto simp: try_block_throws message_action_def)

lemma handleWebViewMessage_returns: "\<exists>st'. handleWebViewMessage m st = Inr st'"
  by (simp add: handleWebViewMessage_def Let_def split: sum.splits)

lemma handleWebViewMessage_showCamera:
  "handleWebViewMessage m st = Inr st' \<Longrightarrow>
   showCamera st' =
     (if message_action m = Some (JString (js ''SHOW_CAMERA'')) then True
      else if message_action m = Some (JString (js ''HIDE_CAMERA'')) then False
      else showCamera st)"
  apply (simp add: handleWebViewMessage_def Let_def split: sum.splits)
   apply (auto dest!: try_block_fails try_block_showCamera simp: console_log_def
               split: if_splits)
  done

lemma handleWebViewMessage_frame:
  "handleWebViewMessage m st = Inr st' \<Longrightarrow>
   hasPermission st' = hasPermission st \<and> permissionRequest st' = permissionRequest st \<and>
   (\<exists>new. console st' = console st @ new)"
  apply (simp add: handleWebViewMessage_def Let_def split: sum.splits)
   apply (auto dest!: try_block_frame simp: console_log_def)
  done

section \<open>Steps of the component\<close>

lemma step_showCamera:
  "step e st = Inr st' \<Longrightarrow> showCamera st' \<noteq> showCamera st \<Longrightarrow> \<exists>m. e = OnMessage m"
  by (cases e)
     (auto simp: permissionEffect_def setHasPermission_def console_log_def console_warn_def
           split: settlement.splits)

lemma step_hasPermission:
  "step e st = Inr st' \<Longrightarrow> hasPermission st' \<noteq> hasPermission st \<Longrightarrow>
   \<exists>status. e = PermissionSettled (Fulfilled status) \<and>
            hasPermission st' = Some (status = GRANTED)"
  by (cases e)
     (auto simp: permissionEffect_def setHasPermission_def console_log_def console_warn_def
           dest: handleWebViewMessage_frame split: settlement.splits)

lemma step_permissionRequest:
  "step e st = Inr st' \<Longrightarrow>
   permissionRequest st' =
     (case e of PermissionSettled outcome \<Rightarrow> Settled | _ \<Rightarrow> permissionRequest st)"
  by (cases e)
     (auto simp: permissionEffect_def setHasPermission_def console_log_def console_warn_def
           dest: handleWebViewMessage_frame split: settlement.splits)

section \<open>Camera visibility\<close>

text \<open>
  Claim C1. \<open>showCamera\<close> starts as false. A step of the component changes it only when
  the step is the delivery of a message that parses as JSON and whose \<open>action\<close> field is
  \<open>'SHOW_CAMERA'\<close> (it is then true) or \<open>'HIDE_CAMERA'\<close> (it is then false); the
  permission result and the other callbacks of the WebView never change it. The
  dispatcher always returns, and the value it leaves is true for \<open>'SHOW_CAMERA'\<close>, false
  for \<open>'HIDE_CAMERA'\<close> and the former value for every other message.
\<close>

theorem showCamera_changes_only_on_camera_actions:
  "showCamera initial = False \<and>
   (step e st = Inr st' \<and> showCamera st' \<noteq> showCamera st \<longrightarrow>
      (\<exists>m. e = OnMessage m \<and>
         (message_action m = Some (JString (js ''SHOW_CAMERA'')) \<and> showCamera st'
          \<or> message_action m = Some (JString (js ''HIDE_CAMERA'')) \<and> \<not> showCamera st'))) \<and>
   (\<exists>st1. handleWebViewMessage message st = Inr st1 \<and>
      showCamera st1 =
        (if message_action message = Some (JString (js ''SHOW_CAMERA'')) then True
         else if message_action message = Some (JString (js ''HIDE_CAMERA'')) then False
         else showCamera st))"
proof (intro conjI impI)
  show "showCamera initial = False" by (simp add: initial_def)
next
  assume a: "step e st = Inr st' \<and> showCamera st' \<noteq> showCamera st"
  then obtain m where m: "e = OnMessage m" using step_showCamera by blast
  with a have "handleWebViewMessage m st = Inr st'" by simp
  from handleWebViewMessage_showCamera [OF this] a m
  show "\<exists>m. e = OnMessage m \<and>
         (message_action m = Some (JString (js ''SHOW_CAMERA'')) \<and> showCamera st'
          \<or> message_action m = Some (JString (js ''HIDE_CAMERA'')) \<and> \<not> showCamera st')"
    by (auto split: if_splits)
next
  obtain st1 where "handleWebViewMessage message st = Inr st1"
    using handleWebViewMessage_returns by blast
  then show "\<exists>st1. handleWebViewMessage message st = Inr st1 \<and>
      showCamera st1 =
        (if message_action message = Some (JString (js ''SHOW_CAMERA'')) then True
         else if message_action message = Some (JString (js ''HIDE_CAMERA'')) then False
         else showCamera st)"
    using handleWebViewMessage_showCamera by blast
qed

theorem showCamera_changes_only_on_camera_actions_witness:
  \<open>step (OnMessage (js ''{"action":"SHOW_CAMERA"}''))
      \<lparr>hasPermission = Some True, showCamera = False, console = [],
       permissionRequest = Settled\<rparr>
    = Inr \<lparr>hasPermission = Some True, showCamera = True,
           console =
             [Log [JString (js ''Message from WebView:''),
                   JString (js ''{"action":"SHOW_CAMERA"}'')],
              Log [JString (js ''Show camera requested'')]],
           permissionRequest = Settled\<rparr>
   \<and> message_action (js ''{"action":"SHOW_CAMERA"}'') = Some (JString (js ''SHOW_CAMERA''))\<close>
proof -
  let ?m = \<open>js ''{"action":"SHOW_CAMERA"}''\<close>
  let ?st = "\<lparr>hasPermission = Some True, showCamera = False, console = [],
               permissionRequest = Settled\<rparr>"
  let ?st' = "\<lparr>hasPermission = Some True, showCamera = True,
                console = [Log [JString (js ''Message from WebView:''), JString ?m],
                           Log [JString (js ''Show camera requested'')]],
                permissionRequest = Settled\<rparr>"
  have h: "step (OnMessage ?m) ?st = Inr ?st'" by code_simp
  have "showCamera ?st' \<noteq> showCamera ?st" by simp
  with h showCamera_changes_only_on_camera_actions [of "OnMessage ?m" ?st ?st']
  have "message_action ?m = Some (JString (js ''SHOW_CAMERA''))"
    by auto
  with h show ?thesis by simp
qed

text \<open>
  Claim C10. For a message whose action is \<open>'SHOW_CAMERA'\<close> or \<open>'HIDE_CAMERA'\<close>,
  handling it twice in a row leaves \<open>showCamera\<close> as handling it once does, and the value
  left (true for \<open>'SHOW_CAMERA'\<close>, false for \<open>'HIDE_CAMERA'\<close>) is the same from any other
  state \<open>st2\<close>: it does not depend on the value before.
\<close>

theorem camera_dispatch_idempotent:
  "message_action message = Some (JString (js ''SHOW_CAMERA'')) \<or>
   message_action message = Some (JString (js ''HIDE_CAMERA'')) \<Longrightarrow>
   \<exists>once twice other.
     handleWebViewMessage message st = Inr once \<and>
     handleWebViewMessage message once = Inr twice \<and>
     handleWebViewMessage message st2 = Inr other \<and>
     showCamera twice = showCamera once \<and>
     showCamera other = showCamera once \<and>
     showCamera once = (message_action message = Some (JString (js ''SHOW_CAMERA'')))"
proof -
  assume a: "message_action message = Some (JString (js ''SHOW_CAMERA'')) \<or>
             message_action message = Some (JString (js ''HIDE_CAMERA''))"
  obtain once where 1: "handleWebViewMessage message st = Inr once"
    using handleWebViewMessage_returns by blast
  obtain twice where 2: "handleWebViewMessage message once = Inr twice"
    using handleWebViewMessage_returns by blast
  obtain other where 3: "handleWebViewMessage message st2 = Inr other"
    using handleWebViewMessage_returns by blast
  from a handleWebViewMessage_showCamera [OF 1] handleWebViewMessage_showCamera [OF 2]
    handleWebViewMessage_showCamera [OF 3] 1 2 3
  show ?thesis by auto
qed

theorem camera_dispatch_idempotent_witness:
  \<open>message_action (js ''{"action":"HIDE_CAMERA"}'') = Some (JString (js ''HIDE_CAMERA'')) \<and>
   (\<exists>once twice other.
      handleWebViewMessage (js ''{"action":"HIDE_CAMERA"}'') initial = Inr once \<and>
      handleWebViewMessage (js ''{"action":"HIDE_CAMERA"}'') once = Inr twice \<and>
      handleWebViewMessage (js ''{"action":"HIDE_CAMERA"}'')
        (initial\<lparr>showCamera := True\<rparr>) = Inr other \<and>
      \<not> showCamera once \<and> \<not> showCamera twice \<and> \<not> showCamera other)\<close>
proof -
  have h: \<open>message_action (js ''{"action":"HIDE_CAMERA"}'') = Some (JString (js ''HIDE_CAMERA''))\<close>
    by code_simp
  from camera_dispatch_idempotent
         [of \<open>js ''{"action":"HIDE_CAMERA"}''\<close> initial "initial\<lparr>showCamera := True\<rparr>"] h
  show ?thesis by auto
qed

section \<open>Messages that are not commands\<close>

text \<open>
  Claim C4. A message that \<open>JSON.parse\<close> rejects (the text \<open>hello\<close>, for one) makes the
  dispatcher return normally; the console receives the message as received and then the
  message again under \<open>'Non-JSON message:'\<close>; \<open>showCamera\<close>, \<open>hasPermission\<close> and the
  rest of the state are as before.
\<close>

theorem non_json_message_logged_and_ignored:
  "JSON_parse message = Inl e \<Longrightarrow>
   handleWebViewMessage message st =
     Inr (st\<lparr>console := console st @
                [Log [JString (js ''Message from WebView:''), JString message],
                 Log [JString (js ''Non-JSON message:''), JString message]]\<rparr>)"
  by (simp add: handleWebViewMessage_def try_block_def console_log_def)

theorem non_json_message_logged_and_ignored_witness:
  "JSON_parse (js ''hello'') = Inl SyntaxError \<and>
   handleWebViewMessage (js ''hello'') initial =
     Inr (initial\<lparr>console := console initial @
                [Log [JString (js ''Message from WebView:''), JString (js ''hello'')],
                 Log [JString (js ''Non-JSON message:''), JString (js ''hello'')]]\<rparr>)"
proof -
  have h: "JSON_parse (js ''hello'') = Inl SyntaxError" by code_simp
  from non_json_message_logged_and_ignored [OF h] h show ?thesis by simp
qed

text \<open>
  Claim C9. Handling a message, whatever the message, returns a state with the same
  \<open>hasPermission\<close> and the same pending permission request; the console is only
  appended to; nothing but \<open>showCamera\<close> and the console differs from the state before.
\<close>

theorem message_handling_preserves_permission:
  "\<exists>st'. handleWebViewMessage message st = Inr st' \<and>
         hasPermission st' = hasPermission st \<and>
         permissionRequest st' = permissionRequest st \<and>
         (\<exists>new. console st' = console st @ new) \<and>
         st' = st\<lparr>showCamera := showCamera st', console := console st'\<rparr>"
proof -
  obtain st' where r: "handleWebViewMessage message st = Inr st'"
    using handleWebViewMessage_returns by blast
  from handleWebViewMessage_frame [OF r] r show ?thesis by auto
qed

section \<open>Rendering by permission\<close>

text \<open>
  What \<open>App\<close> returns in each of its three branches, and whether it can be drawn.
  With \<open>hasPermission\<close> false or \<open>null\<close> no WebView is in the tree, so \<open>onMessage\<close>
  cannot be called and no session continues with the delivery of a message.
\<close>

lemma App_by_permission:
  "(hasPermission st = None \<longrightarrow>
      App st = SafeAreaProvider [SafeAreaView [View ''centered'' [View ''loader'' []]]] \<and>
      render (App st) = Inr (App st) \<and>
      \<not> webview_mounted (App st)) \<and>
   (hasPermission st = Some False \<longrightarrow>
      render (App st) = Inl TextStringOutsideText \<and>
      \<not> webview_mounted (App st) \<and>
      \<not> enabled (OnMessage message) st \<and>
      run (OnMessage message # es) st = None) \<and>
   (hasPermission st = Some True \<longrightarrow>
      render (App st) = Inr (App st) \<and> webview_mounted (App st))"
  by (cases "hasPermission st") (auto simp: App_def render_def)

text \<open>
  Claim C6, against the code. The claim is that with permission denied the rendered view
  is the fixed denial view, with no WebView mounted, and that with permission unknown the
  rendered view is the loader. When the permission request is fulfilled with \<open>'denied'\<close>,
  \<open>hasPermission\<close> is false and \<open>App\<close> returns the denial tree, in which the two
  messages are strings placed directly inside a \<open>View\<close>: the tree cannot be drawn, and
  the denial view is not displayed. (No WebView is in that tree, as the claim says.)
\<close>

theorem denial_view_fails_to_render:
  "run [PermissionSettled (Fulfilled DENIED)] initial =
     Some (Inr (initial\<lparr>hasPermission := Some False, permissionRequest := Settled\<rparr>)) \<and>
   App (initial\<lparr>hasPermission := Some False, permissionRequest := Settled\<rparr>) =
     SafeAreaProvider
       [SafeAreaView
          [View ''centered''
             [View ''errorBox''
                [View ''errorIcon'' [View ''errorIconInner'' []],
                 View ''errorText'' [TextString ''Camera permission denied''],
                 View ''errorSubtext'' [TextString ''Please enable it in settings'']]]]] \<and>
   bare_strings (App (initial\<lparr>hasPermission := Some False, permissionRequest := Settled\<rparr>)) =
     [''Camera permission denied'', ''Please enable it in settings''] \<and>
   render (App (initial\<lparr>hasPermission := Some False, permissionRequest := Settled\<rparr>)) =
     Inl TextStringOutsideText \<and>
   \<not> webview_mounted
       (App (initial\<lparr>hasPermission := Some False, permissionRequest := Settled\<rparr>))"
  by (simp add: permissionEffect_def setHasPermission_def initial_def App_def render_def)

section \<open>The permission state along a session\<close>

lemma states_unfold: "states es st = st # tl (states es st)"
  by (cases es) auto

lemma changes_states_step:
  "enabled e st \<Longrightarrow> step e st = Inr st' \<Longrightarrow>
   changes (map f (states (e # es) st)) =
     (if f st = f st' then 0 else 1) + changes (map f (states es st'))"
proof -
  assume en: "enabled e st" and st: "step e st = Inr st'"
  obtain rest where rest: "states es st' = st' # rest"
    using states_unfold by blast
  from en st have "states (e # es) st = st # states es st'" by simp
  with rest show ?thesis by simp
qed

lemma changes_states_stop:
  "\<not> enabled e st \<or> (\<exists>x. step e st = Inl x) \<Longrightarrow> changes (map f (states (e # es) st)) = 0"
  by auto

lemma session_writes_hasPermission:
  "changes (map hasPermission (states es st)) \<le> (if permissionRequest st = Pending then 1 else 0)"
proof (induction es arbitrary: st)
  case Nil
  show ?case by simp
next
  case (Cons e es)
  show ?case
  proof (cases "enabled e st \<and> (\<exists>st'. step e st = Inr st')")
    case False
    then have "\<not> enabled e st \<or> (\<exists>x. step e st = Inl x)"
      by (cases "step e st") auto
    then have "changes (map hasPermission (states (e # es) st)) = 0"
      by (rule changes_states_stop)
    then show ?thesis by simp
  next
    case True
    then obtain st' where en: "enabled e st" and st: "step e st = Inr st'" by blast
    note IH = Cons.IH [of st']
    show ?thesis
    proof (cases "hasPermission st' = hasPermission st")
      case same: True
      have "permissionRequest st' = Pending \<Longrightarrow> permissionRequest st = Pending"
        using step_permissionRequest [OF st] by (cases e) auto
      with IH same show ?thesis
        by (simp only: changes_states_step [OF en st]) (auto split: if_splits)
    next
      case differs: False
      then obtain status where "e = PermissionSettled (Fulfilled status)"
        using step_hasPermission [OF st] by blast
      with en st have "permissionRequest st = Pending" "permissionRequest st' = Settled"
        by auto
      with IH differs show ?thesis
        by (simp only: changes_states_step [OF en st]) (auto split: if_splits)
    qed
  qed
qed

text \<open>In every state a session reaches, a known permission means a settled request.\<close>

lemma run_Cons_Some:
  "run (e # es) st = Some (Inr s) \<Longrightarrow> \<exists>st'. enabled e st \<and> step e st = Inr st' \<and> run es st' = Some (Inr s)"
  by (auto split: if_splits sum.splits)

lemma settled_once_known:
  "run es st = Some (Inr s) \<Longrightarrow>
   (hasPermission st \<noteq> None \<longrightarrow> permissionRequest st = Settled) \<Longrightarrow>
   (hasPermission s \<noteq> None \<longrightarrow> permissionRequest s = Settled)"
proof (induction es arbitrary: st)
  case Nil
  then show ?case by simp
next
  case (Cons e es)
  from run_Cons_Some [OF Cons.prems(1)]
  obtain st' where en: "enabled e st" and st: "step e st = Inr st'"
    and r: "run es st' = Some (Inr s)" by blast
  have "hasPermission st' \<noteq> None \<longrightarrow> permissionRequest st' = Settled"
  proof (cases "hasPermission st' = hasPermission st")
    case True
    with Cons.prems(2) step_permissionRequest [OF st] show ?thesis
      by (cases e) auto
  next
    case False
    then obtain status where "e = PermissionSettled (Fulfilled status)"
      using step_hasPermission [OF st] by blast
    with st show ?thesis by auto
  qed
  from Cons.IH [OF r this] show ?case .
qed

text \<open>
  Claim C7. \<open>hasPermission\<close> starts as \<open>null\<close>. Along any session it changes at most
  once. The only step that changes it is the fulfilment of the permission request, which
  stores whether the status is \<open>'granted'\<close>; and once it is known, in a state a session
  has reached, no step that can occur changes it: it never goes from granted to denied,
  from denied to granted, or back to \<open>null\<close>.
\<close>

theorem hasPermission_written_at_most_once:
  "hasPermission initial = None \<and>
   changes (map hasPermission (states es initial)) \<le> 1 \<and>
   (step e st = Inr st' \<and> hasPermission st' \<noteq> hasPermission st \<longrightarrow>
      (\<exists>status. e = PermissionSettled (Fulfilled status) \<and>
                hasPermission st' = Some (status = GRANTED))) \<and>
   (run es initial = Some (Inr s) \<and> hasPermission s \<noteq> None \<and>
    enabled e s \<and> step e s = Inr s' \<longrightarrow> hasPermission s' = hasPermission s)"
proof (intro conjI impI)
  show "hasPermission initial = None" by (simp add: initial_def)
next
  have "permissionRequest initial = Pending" by (simp add: initial_def)
  with session_writes_hasPermission [of es initial]
  show "changes (map hasPermission (states es initial)) \<le> 1" by simp
next
  assume "step e st = Inr st' \<and> hasPermission st' \<noteq> hasPermission st"
  then show "\<exists>status. e = PermissionSettled (Fulfilled status) \<and>
                hasPermission st' = Some (status = GRANTED)"
    using step_hasPermission by blast
next
  assume a: "run es initial = Some (Inr s) \<and> hasPermission s \<noteq> None \<and>
    enabled e s \<and> step e s = Inr s'"
  have "hasPermission initial \<noteq> None \<longrightarrow> permissionRequest initial = Settled"
    by (simp add: initial_def)
  with a settled_once_known have settled: "permissionRequest s = Settled" by blast
  show "hasPermission s' = hasPermission s"
  proof (rule ccontr)
    assume "hasPermission s' \<noteq> hasPermission s"
    with a obtain status where "e = PermissionSettled (Fulfilled status)"
      using step_hasPermission by blast
    with a settled show False by simp
  qed
qed

theorem hasPermission_written_at_most_once_witness:
  \<open>run [PermissionSettled (Fulfilled DENIED)] initial
     = Some (Inr (initial\<lparr>hasPermission := Some False, permissionRequest := Settled\<rparr>)) \<and>
   step (PermissionSettled (Fulfilled DENIED)) initial
     = Inr (initial\<lparr>hasPermission := Some False, permissionRequest := Settled\<rparr>) \<and>
   hasPermission (initial\<lparr>hasPermission := Some False, permissionRequest := Settled\<rparr>)
     \<noteq> hasPermission initial \<and>
   (\<exists>status. PermissionSettled (Fulfilled DENIED) = PermissionSettled (Fulfilled status) \<and>
      hasPermission (initial\<lparr>hasPermission := Some False, permissionRequest := Settled\<rparr>)
        = Some (status = GRANTED)) \<and>
   run [PermissionSettled (Fulfilled GRANTED)] initial
     = Some (Inr (initial\<lparr>hasPermission := Some True, permissionRequest := Settled\<rparr>)) \<and>
   enabled OnLoadEnd (initial\<lparr>hasPermission := Some True, permissionRequest := Settled\<rparr>) \<and>
   step OnLoadEnd (initial\<lparr>hasPermission := Some True, permissionRequest := Settled\<rparr>)
     = Inr (initial\<lparr>hasPermission := Some True, permissionRequest := Settled,
                   console := [Log [JString (js ''WebView load end'')]]\<rparr>) \<and>
   hasPermission (initial\<lparr>hasPermission := Some True, permissionRequest := Settled,
                   console := [Log [JString (js ''WebView load end'')]]\<rparr>) = Some True\<close>
proof -
  let ?e = "PermissionSettled (Fulfilled DENIED)"
  let ?d = "initial\<lparr>hasPermission := Some False, permissionRequest := Settled\<rparr>"
  let ?g = "initial\<lparr>hasPermission := Some True, permissionRequest := Settled\<rparr>"
  let ?g' = "initial\<lparr>hasPermission := Some True, permissionRequest := Settled,
                   console := [Log [JString (js ''WebView load end'')]]\<rparr>"
  have s1: "step ?e initial = Inr ?d"
    by (simp add: permissionEffect_def setHasPermission_def)
  have r1: "run [?e] initial = Some (Inr ?d)"
    by (simp add: permissionEffect_def setHasPermission_def initial_def)
  have n1: "hasPermission ?d \<noteq> hasPermission initial" by (simp add: initial_def)
  have r2: "run [PermissionSettled (Fulfilled GRANTED)] initial = Some (Inr ?g)"
    by (simp add: permissionEffect_def setHasPermission_def initial_def)
  have en: "enabled OnLoadEnd ?g" by (simp add: App_def)
  have s2: "step OnLoadEnd ?g = Inr ?g'" by (simp add: console_log_def initial_def)
  have k: "hasPermission ?g \<noteq> None" by simp
  from s1 n1 hasPermission_written_at_most_once [of "[]" ?e initial ?d]
  have 1: "\<exists>status. ?e = PermissionSettled (Fulfilled status) \<and>
      hasPermission ?d = Some (status = GRANTED)" by blast
  from r2 k en s2 hasPermission_written_at_most_once [of "[PermissionSettled (Fulfilled GRANTED)]" OnLoadEnd ?g ?g' ?g ?g']
  have 2: "hasPermission ?g' = hasPermission ?g" by blast
  then have "hasPermission ?g' = Some True" by simp
  with s1 r1 n1 r2 en s2 1 show ?thesis by blast
qed

section \<open>Unrecognized actions\<close>

text \<open>\<open>JSON.parse\<close> never returns \<open>undefined\<close>.\<close>

lemma lex_idle_defined:
  "lex_idle c ts = Some l' \<Longrightarrow> TAtom Undefined \<notin> set ts \<Longrightarrow> lex_defined l'"
  by (auto simp: lex_idle_def split: if_splits)

lemma lex_char_defined: "lex_char l c = Some l' \<Longrightarrow> lex_defined l \<Longrightarrow> lex_defined l'"
  by (induction l c rule: lex_char.induct)
     (auto split: if_splits option.splits list.splits dest: lex_idle_defined)

lemma lex_end_defined: "lex_end l = Some ts \<Longrightarrow> lex_defined l \<Longrightarrow> TAtom Undefined \<notin> set ts"
  by (induction l rule: lex_end.induct) (auto split: if_splits)

lemma lex_all_defined: "lex_all l cs = Some ts \<Longrightarrow> lex_defined l \<Longrightarrow> TAtom Undefined \<notin> set ts"
proof (induction cs arbitrary: l)
  case Nil
  then show ?case using lex_end_defined by simp
next
  case (Cons c cs)
  then show ?case by (auto split: option.splits dest: lex_char_defined)
qed

lemma parse_token_defined:
  "parse_token p t = Some p' \<Longrightarrow> fst p \<noteq> PAfter Undefined \<Longrightarrow> t \<noteq> TAtom Undefined \<Longrightarrow>
   fst p' \<noteq> PAfter Undefined"
  by (induction p t rule: parse_token.induct)
     (auto split: if_splits token.splits js_value.splits elim!: parse_value_start.elims)

lemma parse_all_defined:
  "parse_all p ts = Some v \<Longrightarrow> fst p \<noteq> PAfter Undefined \<Longrightarrow> TAtom Undefined \<notin> set ts \<Longrightarrow>
   v \<noteq> Undefined"
proof (induction ts arbitrary: p)
  case Nil
  then show ?case by (cases p rule: parse_end.cases) auto
next
  case (Cons t ts)
  then show ?case by (auto split: option.splits dest: parse_token_defined)
qed

lemma JSON_parse_defined: "JSON_parse text \<noteq> Inr Undefined"
proof
  assume "JSON_parse text = Inr Undefined"
  then obtain ts where ts: "lex_all (LIdle, []) text = Some ts"
    and p: "parse_all (PValue, []) ts = Some Undefined"
    by (auto simp: JSON_parse_def tokenize_def split: option.splits)
  from lex_all_defined [OF ts] have "TAtom Undefined \<notin> set ts" by simp
  from parse_all_defined [OF p _ this] show False by simp
qed

text \<open>
  Against claim C8 as stated: the text \<open>null\<close> is JSON, and the dispatcher logs it under
  \<open>'Non-JSON message:'\<close>, because reading \<open>action\<close> of \<open>null\<close> throws inside the
  \<open>try\<close> block.
\<close>

theorem null_message_logged_as_non_json:
  "JSON_parse (js ''null'') = Inr JNull \<and>
   handleWebViewMessage (js ''null'') initial =
     Inr (initial\<lparr>console :=
            [Log [JString (js ''Message from WebView:''), JString (js ''null'')],
             Log [JString (js ''Non-JSON message:''), JString (js ''null'')]]\<rparr>)"
  by code_simp

text \<open>
  Claim C8, amended. A message that parses as JSON to a value other than \<open>null\<close>, and
  whose \<open>action\<close> is none of \<open>'SHOW_CAMERA'\<close>, \<open>'HIDE_CAMERA'\<close>, \<open>'BUTTON_CLICKED'\<close>
  (a number, a string, an array, an object without \<open>action\<close> such as a
  \<open>CONSOLE_LOG\<close> message, an object with another action), makes the dispatcher return
  normally with the state as before, the console having received the message as received
  and nothing else. A message that parses to \<open>null\<close> also makes it return normally, with
  \<open>showCamera\<close> and \<open>hasPermission\<close> as before. A message that does not parse is logged
  under \<open>'Non-JSON message:'\<close>.
\<close>

theorem unrecognized_action_ignored:
  "(JSON_parse message = Inr data \<and> data \<noteq> JNull \<and>
    message_action message \<noteq> Some (JString (js ''SHOW_CAMERA'')) \<and>
    message_action message \<noteq> Some (JString (js ''HIDE_CAMERA'')) \<and>
    message_action message \<noteq> Some (JString (js ''BUTTON_CLICKED'')) \<longrightarrow>
      handleWebViewMessage message st =
        Inr (st\<lparr>console := console st @
                   [Log [JString (js ''Message from WebView:''), JString message]]\<rparr>)) \<and>
   (JSON_parse message = Inr JNull \<longrightarrow>
      (\<exists>st'. handleWebViewMessage message st = Inr st' \<and>
             showCamera st' = showCamera st \<and> hasPermission st' = hasPermission st)) \<and>
   (JSON_parse message = Inl e \<longrightarrow>
      handleWebViewMessage message st =
        Inr (st\<lparr>console := console st @
                   [Log [JString (js ''Message from WebView:''), JString message],
                    Log [JString (js ''Non-JSON message:''), JString message]]\<rparr>))"
proof (intro conjI impI)
  assume a: "JSON_parse message = Inr data \<and> data \<noteq> JNull \<and>
    message_action message \<noteq> Some (JString (js ''SHOW_CAMERA'')) \<and>
    message_action message \<noteq> Some (JString (js ''HIDE_CAMERA'')) \<and>
    message_action message \<noteq> Some (JString (js ''BUTTON_CLICKED''))"
  then have "data \<noteq> Undefined" using JSON_parse_defined [of message] by auto
  with a obtain action where act: "get_property data (js ''action'') = Inr action"
    by (cases "get_property data (js ''action'')") (auto simp: get_property_throws)
  with a have "message_action message = Some action" by (simp add: message_action_def)
  with a act show "handleWebViewMessage message st =
        Inr (st\<lparr>console := console st @
                   [Log [JString (js ''Message from WebView:''), JString message]]\<rparr>)"
    by (simp add: handleWebViewMessage_def try_block_def console_log_def)
next
  assume "JSON_parse message = Inr JNull"
  then show "\<exists>st'. handleWebViewMessage message st = Inr st' \<and>
             showCamera st' = showCamera st \<and> hasPermission st' = hasPermission st"
    by (simp add: handleWebViewMessage_def try_block_def console_log_def)
next
  assume "JSON_parse message = Inl e"
  then show "handleWebViewMessage message st =
        Inr (st\<lparr>console := console st @
                   [Log [JString (js ''Message from WebView:''), JString message],
                    Log [JString (js ''Non-JSON message:''), JString message]]\<rparr>)"
    by (simp add: handleWebViewMessage_def try_block_def console_log_def)
qed

theorem unrecognized_action_ignored_witness:
  \<open>JSON_parse (js ''{"type":"CONSOLE_LOG","message":"Going to screen: 5"}'')
     = Inr (JObject [(js ''type'', JString (js ''CONSOLE_LOG'')),
                     (js ''message'', JString (js ''Going to screen: 5''))]) \<and>
   message_action (js ''{"type":"CONSOLE_LOG","message":"Going to screen: 5"}'')
     = Some Undefined \<and>
   handleWebViewMessage (js ''{"type":"CONSOLE_LOG","message":"Going to screen: 5"}'') initial
     = Inr (initial\<lparr>console := console initial @
              [Log [JString (js ''Message from WebView:''),
                    JString (js ''{"type":"CONSOLE_LOG","message":"Going to screen: 5"}'')]]\<rparr>) \<and>
   JSON_parse (js ''null'') = Inr JNull \<and>
   (\<exists>st'. handleWebViewMessage (js ''null'') initial = Inr st' \<and>
          showCamera st' = showCamera initial \<and> hasPermission st' = hasPermission initial) \<and>
   JSON_parse (js ''{action:1}'') = Inl SyntaxError \<and>
   handleWebViewMessage (js ''{action:1}'') initial
     = Inr (initial\<lparr>console := console initial @
              [Log [JString (js ''Message from WebView:''), JString (js ''{action:1}'')],
               Log [JString (js ''Non-JSON message:''), JString (js ''{action:1}'')]]\<rparr>)\<close>
proof -
  let ?m = \<open>js ''{"type":"CONSOLE_LOG","message":"Going to screen: 5"}''\<close>
  let ?data = "JObject [(js ''type'', JString (js ''CONSOLE_LOG'')),
                     (js ''message'', JString (js ''Going to screen: 5''))]"
  have p: "JSON_parse ?m = Inr ?data" by code_simp
  have a: "message_action ?m = Some Undefined" by code_simp
  have n: "JSON_parse (js ''null'') = Inr JNull" by code_simp
  have s: "JSON_parse (js ''{action:1}'') = Inl SyntaxError" by code_simp
  from p a unrecognized_action_ignored [of ?m ?data initial SyntaxError]
  have 1: "handleWebViewMessage ?m initial
     = Inr (initial\<lparr>console := console initial @
              [Log [JString (js ''Message from WebView:''), JString ?m]]\<rparr>)"
    by simp
  from n unrecognized_action_ignored [of "js ''null''" JNull initial SyntaxError]
  have 2: "\<exists>st'. handleWebViewMessage (js ''null'') initial = Inr st' \<and>
          showCamera st' = showCamera initial \<and> hasPermission st' = hasPermission initial"
    by simp
  from s unrecognized_action_ignored [of "js ''{action:1}''" JNull initial SyntaxError]
  have 3: "handleWebViewMessage (js ''{action:1}'') initial
     = Inr (initial\<lparr>console := console initial @
              [Log [JString (js ''Message from WebView:''), JString (js ''{action:1}'')],
               Log [JString (js ''Non-JSON message:''), JString (js ''{action:1}'')]]\<rparr>)"
    by simp
  from p a n s 1 2 3 show ?thesis by blast
qed

section \<open>Button clicks\<close>

text \<open>
  Against claim C2 as stated: a \<open>BUTTON_CLICKED\<close> message for \<open>screen_5\<close> leaves
  \<open>showCamera\<close> false, and one for \<open>screen_2\<close> leaves it true.
\<close>

theorem button_clicked_leaves_showCamera:
  \<open>handleWebViewMessage (js ''{"action":"BUTTON_CLICKED","button":"screen_5"}'')
     \<lparr>hasPermission = Some True, showCamera = False, console = [],
      permissionRequest = Settled\<rparr>
   = Inr \<lparr>hasPermission = Some True, showCamera = False,
          console =
            [Log [JString (js ''Message from WebView:''),
                  JString (js ''{"action":"BUTTON_CLICKED","button":"screen_5"}'')],
             Log [JString (js ''Button clicked:''), JString (js ''screen_5'')]],
          permissionRequest = Settled\<rparr> \<and>
   handleWebViewMessage (js ''{"action":"BUTTON_CLICKED","button":"screen_2"}'')
     \<lparr>hasPermission = Some True, showCamera = True, console = [],
      permissionRequest = Settled\<rparr>
   = Inr \<lparr>hasPermission = Some True, showCamera = True,
          console =
            [Log [JString (js ''Message from WebView:''),
                  JString (js ''{"action":"BUTTON_CLICKED","button":"screen_2"}'')],
             Log [JString (js ''Button clicked:''), JString (js ''screen_2'')]],
          permissionRequest = Settled\<rparr>\<close>
  by code_simp

text \<open>
  Claim C2, amended. On a message that parses as JSON with action \<open>'BUTTON_CLICKED'\<close>,
  whatever its \<open>button\<close> (\<open>'screen_5'\<close>, \<open>'screen_2'\<close>, any other value or none), the
  dispatcher logs the button and leaves \<open>showCamera\<close> and the rest of the state as
  before.
\<close>

theorem button_clicked_only_logs:
  "message_action message = Some (JString (js ''BUTTON_CLICKED'')) \<Longrightarrow>
   \<exists>data button.
     JSON_parse message = Inr data \<and>
     get_property data (js ''button'') = Inr button \<and>
     handleWebViewMessage message st =
       Inr (st\<lparr>console := console st @
                  [Log [JString (js ''Message from WebView:''), JString message],
                   Log [JString (js ''Button clicked:''), button]]\<rparr>)"
proof -
  assume a: "message_action message = Some (JString (js ''BUTTON_CLICKED''))"
  then obtain data where d: "JSON_parse message = Inr data"
    and act: "get_property data (js ''action'') = Inr (JString (js ''BUTTON_CLICKED''))"
    by (auto simp: message_action_def split: sum.splits)
  from act obtain button where b: "get_property data (js ''button'') = Inr button"
    using get_property_total by blast
  from d act b have "handleWebViewMessage message st =
       Inr (st\<lparr>console := console st @
                  [Log [JString (js ''Message from WebView:''), JString message],
                   Log [JString (js ''Button clicked:''), button]]\<rparr>)"
    by (simp add: handleWebViewMessage_def try_block_def console_log_def)
  with d b show ?thesis by blast
qed

theorem button_clicked_only_logs_witness:
  \<open>message_action (js ''{"action":"BUTTON_CLICKED","button":"screen_5"}'')
     = Some (JString (js ''BUTTON_CLICKED'')) \<and>
   (\<exists>data button.
     JSON_parse (js ''{"action":"BUTTON_CLICKED","button":"screen_5"}'') = Inr data \<and>
     get_property data (js ''button'') = Inr button \<and>
     handleWebViewMessage (js ''{"action":"BUTTON_CLICKED","button":"screen_5"}'') initial =
       Inr (initial\<lparr>console := console initial @
                  [Log [JString (js ''Message from WebView:''),
                        JString (js ''{"action":"BUTTON_CLICKED","button":"screen_5"}'')],
                   Log [JString (js ''Button clicked:''), button]]\<rparr>))\<close>
proof -
  have h: \<open>message_action (js ''{"action":"BUTTON_CLICKED","button":"screen_5"}'')
     = Some (JString (js ''BUTTON_CLICKED''))\<close>
    by code_simp
  from button_clicked_only_logs [OF h, of initial] h show ?thesis by blast
qed

section \<open>Outcomes of the permission request\<close>

text \<open>
  Against claim C3 as stated: when the permission request is rejected, \<open>hasPermission\<close>
  is still \<open>null\<close> afterwards and \<open>App\<close> still renders the loader.
\<close>

theorem permission_rejection_leaves_unknown:
  "step (PermissionSettled Rejected) initial = Inr (initial\<lparr>permissionRequest := Settled\<rparr>) \<and>
   hasPermission (initial\<lparr>permissionRequest := Settled\<rparr>) = None \<and>
   App (initial\<lparr>permissionRequest := Settled\<rparr>) =
     SafeAreaProvider [SafeAreaView [View ''centered'' [View ''loader'' []]]]"
  by (simp add: permissionEffect_def initial_def App_def)

lemma no_event_after_rejection:
  "hasPermission st = None \<Longrightarrow> permissionRequest st = Settled \<Longrightarrow> \<not> enabled e st"
  by (cases e) (auto simp: App_def)

text \<open>
  Claim C3, amended. When the permission request is fulfilled with a status,
  \<open>hasPermission\<close> becomes true if the status is \<open>'granted'\<close> and false otherwise.
  When the request is rejected, \<open>hasPermission\<close> keeps its value; in a session that
  starts with the rejection nothing can happen afterwards: \<open>hasPermission\<close> stays
  \<open>null\<close> and \<open>App\<close> keeps rendering the loader.
\<close>

theorem permission_request_outcomes:
  "step (PermissionSettled (Fulfilled status)) st =
     Inr (st\<lparr>hasPermission := Some (status = GRANTED), permissionRequest := Settled\<rparr>) \<and>
   step (PermissionSettled Rejected) st = Inr (st\<lparr>permissionRequest := Settled\<rparr>) \<and>
   (run (PermissionSettled Rejected # es) initial = Some (Inr st') \<longrightarrow>
      es = [] \<and> hasPermission st' = None \<and>
      App st' = SafeAreaProvider [SafeAreaView [View ''centered'' [View ''loader'' []]]])"
proof (intro conjI impI)
  show "step (PermissionSettled (Fulfilled status)) st =
     Inr (st\<lparr>hasPermission := Some (status = GRANTED), permissionRequest := Settled\<rparr>)"
    by (simp add: permissionEffect_def setHasPermission_def)
  show r: "step (PermissionSettled Rejected) st = Inr (st\<lparr>permissionRequest := Settled\<rparr>)" for st
    by (simp add: permissionEffect_def)
  assume a: "run (PermissionSettled Rejected # es) initial = Some (Inr st')"
  let ?s = "initial\<lparr>permissionRequest := Settled\<rparr>"
  from a have run: "run es ?s = Some (Inr st')"
    by (simp add: permissionEffect_def initial_def split: if_splits)
  have stuck: "\<not> enabled e ?s" for e
    by (rule no_event_after_rejection) (simp_all add: initial_def)
  show es: "es = []"
  proof (cases es)
    case (Cons e es')
    with run stuck [of e] show ?thesis by simp
  qed simp
  with run have "st' = ?s" by simp
  then show "hasPermission st' = None"
    "App st' = SafeAreaProvider [SafeAreaView [View ''centered'' [View ''loader'' []]]]"
    by (simp_all add: initial_def App_def)
qed

theorem permission_request_outcomes_witness:
  "run [PermissionSettled Rejected] initial = Some (Inr (initial\<lparr>permissionRequest := Settled\<rparr>)) \<and>
   hasPermission (initial\<lparr>permissionRequest := Settled\<rparr>) = None \<and>
   step (PermissionSettled (Fulfilled UNDETERMINED)) initial =
     Inr (initial\<lparr>hasPermission := Some False, permissionRequest := Settled\<rparr>)"
proof -
  have r: "run [PermissionSettled Rejected] initial = Some (Inr (initial\<lparr>permissionRequest := Settled\<rparr>))"
    by (simp add: permissionEffect_def initial_def)
  from r permission_request_outcomes [of UNDETERMINED initial "[]" "initial\<lparr>permissionRequest := Settled\<rparr>"]
  show ?thesis by simp
qed

section \<open>The navigation wrapper\<close>

lemma quote_unit_plain: "plain_unit c \<Longrightarrow> quote_unit c = [c]"
  by (simp add: plain_unit_def quote_unit_def)

lemma quote_plain: "list_all plain_unit s \<Longrightarrow> concat (map quote_unit s) = s"
  by (induction s) (simp_all add: quote_unit_plain)

lemma QuoteJSONString_plain:
  "list_all plain_unit s \<Longrightarrow> QuoteJSONString s = ch CHR 0x22 # s @ [ch CHR 0x22]"
  by (simp add: QuoteJSONString_def quote_plain)

lemma digits_plain: "list_all plain_unit (digits n)"
proof (induction n rule: digits.induct)
  case (1 n)
  have d: "plain_unit (48 + k)" if "k < 10" for k
    using that by (auto simp: plain_unit_def)
  show ?case
  proof (cases "n < 10")
    case True
    then show ?thesis by (subst digits.simps) (simp add: d)
  next
    case False
    have "n mod 10 < 10" by simp
    with False 1 show ?thesis by (subst digits.simps) (simp add: d)
  qed
qed

lemma Number_toString_plain: "list_all plain_unit (Number_toString n)"
  by (simp add: Number_toString_def digits_plain) (simp add: plain_unit_def)

lemma lex_string_plain:
  "list_all plain_unit s \<Longrightarrow>
   lex_all (LString acc, ts) (s @ rest) = lex_all (LString (acc @ s), ts) rest"
  by (induction s arbitrary: acc) (simp_all add: plain_unit_def)

lemma button_text:
  \<open>JSON_stringify [(js ''action'', js ''BUTTON_CLICKED''),
                   (js ''button'', js ''screen_'' @ Number_toString n)]
   = js ''{"action":"BUTTON_CLICKED","button":"screen_'' @ Number_toString n @ js ''"}''\<close>
proof -
  have 1: "QuoteJSONString (js ''screen_'' @ Number_toString n)
             = ch CHR 0x22 # (js ''screen_'' @ Number_toString n) @ [ch CHR 0x22]"
    by (rule QuoteJSONString_plain) (simp add: Number_toString_plain js_def plain_unit_def)
  have 2: "QuoteJSONString (js ''action'') = ch CHR 0x22 # js ''action'' @ [ch CHR 0x22]"
    "QuoteJSONString (js ''button'') = ch CHR 0x22 # js ''button'' @ [ch CHR 0x22]"
    "QuoteJSONString (js ''BUTTON_CLICKED'') = ch CHR 0x22 # js ''BUTTON_CLICKED'' @ [ch CHR 0x22]"
    by (rule QuoteJSONString_plain, simp add: js_def plain_unit_def)+
  show ?thesis
    by (simp add: JSON_stringify_def 1 2) (simp add: js_def)
qed

lemma console_text:
  \<open>JSON_stringify [(js ''type'', js ''CONSOLE_LOG''),
                   (js ''message'', join (js '' '') [js ''Going to screen:'', Number_toString n])]
   = js ''{"type":"CONSOLE_LOG","message":"Going to screen: '' @ Number_toString n @ js ''"}''\<close>
proof -
  have 1: "QuoteJSONString (js ''Going to screen:'' @ js '' '' @ Number_toString n)
             = ch CHR 0x22 # (js ''Going to screen:'' @ js '' '' @ Number_toString n) @ [ch CHR 0x22]"
    by (rule QuoteJSONString_plain) (simp add: Number_toString_plain js_def plain_unit_def)
  have 2: "QuoteJSONString (js ''type'') = ch CHR 0x22 # js ''type'' @ [ch CHR 0x22]"
    "QuoteJSONString (js ''message'') = ch CHR 0x22 # js ''message'' @ [ch CHR 0x22]"
    "QuoteJSONString (js ''CONSOLE_LOG'') = ch CHR 0x22 # js ''CONSOLE_LOG'' @ [ch CHR 0x22]"
    by (rule QuoteJSONString_plain, simp add: js_def plain_unit_def)+
  show ?thesis
    by (simp add: JSON_stringify_def 1 2) (simp add: js_def)
qed

lemma camera_text:
  \<open>JSON_stringify [(js ''action'', js ''SHOW_CAMERA'')] = js ''{"action":"SHOW_CAMERA"}''\<close>
  \<open>JSON_stringify [(js ''action'', js ''HIDE_CAMERA'')] = js ''{"action":"HIDE_CAMERA"}''\<close>
  by code_simp+

lemma camera_text_action:
  \<open>message_action (js ''{"action":"SHOW_CAMERA"}'') = Some (JString (js ''SHOW_CAMERA''))\<close>
  \<open>message_action (js ''{"action":"HIDE_CAMERA"}'') = Some (JString (js ''HIDE_CAMERA''))\<close>
  by code_simp+

lemma button_text_parse:
  \<open>JSON_parse (js ''{"action":"BUTTON_CLICKED","button":"screen_'' @ Number_toString n @ js ''"}'')
   = Inr (JObject [(js ''action'', JString (js ''BUTTON_CLICKED'')),
                   (js ''button'', JString (js ''screen_'' @ Number_toString n))])\<close>
proof -
  have pre: \<open>lex_all (LIdle, []) (js ''{"action":"BUTTON_CLICKED","button":"screen_'' @ rest)
    = lex_all (LString (js ''screen_''),
         [TLBrace, TAtom (JString (js ''action'')), TColon, TAtom (JString (js ''BUTTON_CLICKED'')),
          TComma, TAtom (JString (js ''button'')), TColon]) rest\<close> for rest
    by (simp add: js_def lex_idle_def is_whitespace_def is_digit_def)
  have post: \<open>lex_all (LString s, ts) (js ''"}'') = Some (ts @ [TAtom (JString s), TRBrace])\<close> for s ts
    by (simp add: js_def lex_idle_def is_whitespace_def is_digit_def)
  have "tokenize (js ''{\"action\":\"BUTTON_CLICKED\",\"button\":\"screen_'' @ Number_toString n @ js ''\"}'')
    = Some [TLBrace, TAtom (JString (js ''action'')), TColon, TAtom (JString (js ''BUTTON_CLICKED'')),
          TComma, TAtom (JString (js ''button'')), TColon,
          TAtom (JString (js ''screen_'' @ Number_toString n)), TRBrace]"
    unfolding tokenize_def pre
    by (simp only: lex_string_plain [OF Number_toString_plain] post) simp
  then show ?thesis by (simp add: JSON_parse_def)
qed

text \<open>
  Claim C5. For a screen index \<open>n\<close> (a safe integer, so that \<open>'screen_' + n\<close> ends in
  its decimal numeral), one call of the wrapper posts, after the
  \<open>CONSOLE_LOG\<close> message of its own \<open>console.log\<close>, the text of
  \<open>{action: 'BUTTON_CLICKED', button: 'screen_<n>'}\<close>, then the text of
  \<open>{action: 'SHOW_CAMERA'}\<close> when \<open>n\<close> is 5 and of \<open>{action: 'HIDE_CAMERA'}\<close>
  otherwise, and then calls the original function on the page so changed; when there is no
  original function it returns normally with the messages posted. The host parses the
  posted texts back to those objects.
\<close>

theorem goToScreen_posts_then_delegates:
  assumes "is_safe_integer n"
  shows \<open>\<exists>pg'.
     pg' = pg\<lparr>posted := posted pg @
               [js ''{"type":"CONSOLE_LOG","message":"Going to screen: '' @ Number_toString n @ js ''"}'',
                js ''{"action":"BUTTON_CLICKED","button":"screen_'' @ Number_toString n @ js ''"}'',
                if n = 5 then js ''{"action":"SHOW_CAMERA"}'' else js ''{"action":"HIDE_CAMERA"}''],
              pageConsole := pageConsole pg @ [[js ''Going to screen:'', Number_toString n]]\<rparr> \<and>
     goToScreen originalGoToScreen n pg =
       (case originalGoToScreen of Some f \<Rightarrow> f n pg' | None \<Rightarrow> Inr pg') \<and>
     JSON_parse (posted pg' ! (length (posted pg) + 1)) =
       Inr (JObject [(js ''action'', JString (js ''BUTTON_CLICKED'')),
                     (js ''button'', JString (js ''screen_'' @ Number_toString n))]) \<and>
     message_action (posted pg' ! (length (posted pg) + 2)) =
       Some (JString (if n = 5 then js ''SHOW_CAMERA'' else js ''HIDE_CAMERA''))\<close>
proof -
  let ?pg' = \<open>pg\<lparr>posted := posted pg @
               [js ''{"type":"CONSOLE_LOG","message":"Going to screen: '' @ Number_toString n @ js ''"}'',
                js ''{"action":"BUTTON_CLICKED","button":"screen_'' @ Number_toString n @ js ''"}'',
                if n = 5 then js ''{"action":"SHOW_CAMERA"}'' else js ''{"action":"HIDE_CAMERA"}''],
              pageConsole := pageConsole pg @ [[js ''Going to screen:'', Number_toString n]]\<rparr>\<close>
  have g: "goToScreen originalGoToScreen n pg =
       (case originalGoToScreen of Some f \<Rightarrow> f n ?pg' | None \<Rightarrow> Inr ?pg')"
    unfolding goToScreen_def page_console_log_def console_text button_text camera_text
    by (cases pg; cases originalGoToScreen; cases "n = 5")
       (simp_all add: postMessage_def originalLog_def Let_def)
  have b: "JSON_parse (posted ?pg' ! (length (posted pg) + 1)) =
       Inr (JObject [(js ''action'', JString (js ''BUTTON_CLICKED'')),
                     (js ''button'', JString (js ''screen_'' @ Number_toString n))])"
    by (simp add: nth_append button_text_parse)
  have c: "message_action (posted ?pg' ! (length (posted pg) + 2)) =
       Some (JString (if n = 5 then js ''SHOW_CAMERA'' else js ''HIDE_CAMERA''))"
    by (simp add: nth_append camera_text_action)
  from g b c show ?thesis by blast
qed

lemma js_append: "js a @ js b = js (a @ b)"
  by (simp add: js_def)

theorem goToScreen_posts_then_delegates_witness:
  \<open>is_safe_integer 5 \<and>
   goToScreen None 5 \<lparr>posted = [], pageConsole = [], content = ()\<rparr>
     = (Inr \<lparr>posted =
               [js ''{"type":"CONSOLE_LOG","message":"Going to screen: 5"}'',
                js ''{"action":"BUTTON_CLICKED","button":"screen_5"}'',
                js ''{"action":"SHOW_CAMERA"}''],
             pageConsole = [[js ''Going to screen:'', js ''5'']],
             content = ()\<rparr> :: unit + unit page) \<and>
   is_safe_integer 2 \<and>
   goToScreen (Some (\<lambda>k pg. Inr (pg\<lparr>content := k\<rparr>))) 2
       \<lparr>posted = [], pageConsole = [], content = 0\<rparr>
     = (Inr \<lparr>posted =
               [js ''{"type":"CONSOLE_LOG","message":"Going to screen: 2"}'',
                js ''{"action":"BUTTON_CLICKED","button":"screen_2"}'',
                js ''{"action":"HIDE_CAMERA"}''],
             pageConsole = [[js ''Going to screen:'', js ''2'']],
             content = 2\<rparr> :: unit + int page)\<close>
proof -
  have s5: "is_safe_integer 5" and s2: "is_safe_integer 2"
    by (simp_all add: is_safe_integer_def)
  have n5: "Number_toString 5 = js ''5''" and n2: "Number_toString 2 = js ''2''"
    by code_simp+
  from goToScreen_posts_then_delegates [OF s5, of "\<lparr>posted = [], pageConsole = [], content = ()\<rparr>" "None :: (int \<Rightarrow> unit page \<Rightarrow> unit + unit page) option"]
  have 1: \<open>goToScreen None 5 \<lparr>posted = [], pageConsole = [], content = ()\<rparr>
     = (Inr \<lparr>posted =
               [js ''{"type":"CONSOLE_LOG","message":"Going to screen: 5"}'',
                js ''{"action":"BUTTON_CLICKED","button":"screen_5"}'',
                js ''{"action":"SHOW_CAMERA"}''],
             pageConsole = [[js ''Going to screen:'', js ''5'']],
             content = ()\<rparr> :: unit + unit page)\<close>
    by (simp add: n5 js_append)
  from goToScreen_posts_then_delegates [OF s2, of "\<lparr>posted = [], pageConsole = [], content = 0\<rparr>"
                     "Some (\<lambda>k pg. Inr (pg\<lparr>content := k\<rparr>)) :: (int \<Rightarrow> int page \<Rightarrow> unit + int page) option"]
  have 2: \<open>goToScreen (Some (\<lambda>k pg. Inr (pg\<lparr>content := k\<rparr>))) 2
       \<lparr>posted = [], pageConsole = [], content = 0\<rparr>
     = (Inr \<lparr>posted =
               [js ''{"type":"CONSOLE_LOG","message":"Going to screen: 2"}'',
                js ''{"action":"BUTTON_CLICKED","button":"screen_2"}'',
                js ''{"action":"HIDE_CAMERA"}''],
             pageConsole = [[js ''Going to screen:'', js ''2'']],
             content = 2\<rparr> :: unit + int page)\<close>
    by (simp add: n2 js_append)
  from s5 s2 1 2 show ?thesis by blast
qed

lemma console_text_action:
  \<open>message_action
     (js ''{"type":"CONSOLE_LOG","message":"Going to screen: '' @ Number_toString n @ js ''"}'')
   = Some Undefined\<close>
proof -
  have pre: \<open>lex_all (LIdle, []) (js ''{"type":"CONSOLE_LOG","message":"Going to screen: '' @ rest)
    = lex_all (LString (js ''Going to screen: ''),
         [TLBrace, TAtom (JString (js ''type'')), TColon, TAtom (JString (js ''CONSOLE_LOG'')),
          TComma, TAtom (JString (js ''message'')), TColon]) rest\<close> for rest
    by (simp add: js_def lex_idle_def is_whitespace_def is_digit_def)
  have post: \<open>lex_all (LString s, ts) (js ''"}'') = Some (ts @ [TAtom (JString s), TRBrace])\<close> for s ts
    by (simp add: js_def lex_idle_def is_whitespace_def is_digit_def)
  have "tokenize (js ''{\"type\":\"CONSOLE_LOG\",\"message\":\"Going to screen: '' @ Number_toString n @ js ''\"}'')
    = Some [TLBrace, TAtom (JString (js ''type'')), TColon, TAtom (JString (js ''CONSOLE_LOG'')),
          TComma, TAtom (JString (js ''message'')), TColon,
          TAtom (JString (js ''Going to screen: '' @ Number_toString n)), TRBrace]"
    unfolding tokenize_def pre
    by (simp only: lex_string_plain [OF Number_toString_plain] post) simp
  then show ?thesis by (simp add: message_action_def JSON_parse_def)
qed

lemma button_text_action:
  \<open>message_action
     (js ''{"action":"BUTTON_CLICKED","button":"screen_'' @ Number_toString n @ js ''"}'')
   = Some (JString (js ''BUTTON_CLICKED''))\<close>
  by (simp add: message_action_def button_text_parse)

text \<open>
  The two halves together: the messages one call of \<open>goToScreen n\<close> posts, delivered in
  order to a host whose WebView is mounted, leave the camera overlay shown exactly when
  \<open>n\<close> is 5.
\<close>

lemma goToScreen_messages_set_showCamera:
  assumes "is_safe_integer n" and "hasPermission st = Some True"
    and "goToScreen None n \<lparr>posted = [], pageConsole = [], content = c\<rparr> = Inr pg'"
  shows "\<exists>st'. run (map OnMessage (posted pg')) st = Some (Inr st') \<and>
               showCamera st' = (n = 5)"
proof -
  let ?c = \<open>js ''{"type":"CONSOLE_LOG","message":"Going to screen: '' @ Number_toString n @ js ''"}''\<close>
  let ?b = \<open>js ''{"action":"BUTTON_CLICKED","button":"screen_'' @ Number_toString n @ js ''"}''\<close>
  let ?a = \<open>if n = 5 then js ''{"action":"SHOW_CAMERA"}'' else js ''{"action":"HIDE_CAMERA"}''\<close>
  from assms(3) have posted: "posted pg' = [?c, ?b, ?a]"
    unfolding goToScreen_def page_console_log_def console_text button_text camera_text
    by (auto simp: postMessage_def originalLog_def Let_def split: if_splits)
  have mounted: "webview_mounted (App s)" if "hasPermission s = Some True" for s
    using that by (simp add: App_def)
  obtain s1 where 1: "handleWebViewMessage ?c st = Inr s1"
    using handleWebViewMessage_returns by blast
  obtain s2 where 2: "handleWebViewMessage ?b s1 = Inr s2"
    using handleWebViewMessage_returns by blast
  obtain s3 where 3: "handleWebViewMessage ?a s2 = Inr s3"
    using handleWebViewMessage_returns by blast
  have p1: "hasPermission s1 = Some True" using handleWebViewMessage_frame [OF 1] assms(2) by simp
  have p2: "hasPermission s2 = Some True" using handleWebViewMessage_frame [OF 2] p1 by simp
  have "message_action ?a = Some (JString (if n = 5 then js ''SHOW_CAMERA'' else js ''HIDE_CAMERA''))"
    by (simp add: camera_text_action)
  with handleWebViewMessage_showCamera [OF 3] have cam: "showCamera s3 = (n = 5)"
    by (auto split: if_splits)
  have "run (map OnMessage [?c, ?b, ?a]) st = Some (Inr s3)"
    using 1 2 3 mounted [OF assms(2)] mounted [OF p1] mounted [OF p2] by simp
  with posted cam show ?thesis by simp
qed

end
